theory Spec2Isabelle
  imports Complex_Main "HOL-Library.Multiset"
begin

section \<open>Python strings: whitespace splitting and joining\<close>

text \<open>
  A Python \<open>str\<close> is modelled as a list of characters. A HOL \<open>char\<close> stands for a
  code point below 256, so \<open>isspace\<close> lists the whitespace code points of that range
  (\<open>str.isspace\<close>: TAB, LF, VT, FF, CR, FS, GS, RS, US, SPACE, NEL, NBSP).
\<close>

definition isspace :: "char \<Rightarrow> bool" where
  "isspace c = (of_char c \<in> set [9, 10, 11, 12, 13, 28, 29, 30, 31, 32, 133, 160 :: nat])"

text \<open>
  \<open>s.split()\<close> with no separator: runs of whitespace separate the words, and no empty
  word is produced. \<open>split_aux cur s\<close> scans \<open>s\<close> with the word read so far in \<open>cur\<close>.
\<close>

fun split_aux :: "string \<Rightarrow> string \<Rightarrow> string list" where
  "split_aux cur [] = (if cur = [] then [] else [cur])"
| "split_aux cur (c # cs) =
     (if isspace c then (if cur = [] then [] else [cur]) @ split_aux [] cs
      else split_aux (cur @ [c]) cs)"

definition split :: "string \<Rightarrow> string list" where
  "split s = split_aux [] s"

text \<open>\<open>sep.join(xs)\<close>.\<close>

fun join :: "string \<Rightarrow> string list \<Rightarrow> string" where
  "join sep [] = []"
| "join sep [x] = x"
| "join sep (x # y # ys) = x @ sep @ join sep (y # ys)"

text \<open>A word as \<open>split\<close> produces it: not empty, no whitespace inside.\<close>

definition is_word :: "string \<Rightarrow> bool" where
  "is_word w = (w \<noteq> [] \<and> \<not> list_ex isspace w)"


section \<open>Caption word-wrap (image\_extract.py, text\_image\_extract.py)\<close>

text \<open>
  The loop over \<open>words\<close> of both extractors, with its two variables \<open>lines\<close> and
  \<open>current_line\<close>. \<open>textlength\<close> is \<open>draw.textlength(\<cdot>, font=font)\<close> of the image library
  (a float), \<open>limit\<close> is \<open>new_width - 40\<close>.
\<close>

fun wrap_loop :: "(string \<Rightarrow> real) \<Rightarrow> real \<Rightarrow> string list \<Rightarrow> string list \<Rightarrow> string list
    \<Rightarrow> string list \<times> string list" where
  "wrap_loop textlength limit lines current_line [] = (lines, current_line)"
| "wrap_loop textlength limit lines current_line (word # words) =
     (let test_line = join '' '' (current_line @ [word]) in
      if textlength test_line < limit
      then wrap_loop textlength limit lines (current_line @ [word]) words
      else wrap_loop textlength limit
             (if current_line \<noteq> [] then lines @ [join '' '' current_line] else lines)
             [word] words)"

definition wrap_words :: "(string \<Rightarrow> real) \<Rightarrow> int \<Rightarrow> string list \<Rightarrow> string list" where
  "wrap_words textlength new_width words =
     (case wrap_loop textlength (real_of_int (new_width - 40)) [] [] words of
        (lines, current_line) \<Rightarrow>
          if current_line \<noteq> [] then lines @ [join '' '' current_line] else lines)"

definition wrap_caption :: "(string \<Rightarrow> real) \<Rightarrow> int \<Rightarrow> string \<Rightarrow> string list" where
  "wrap_caption textlength new_width caption = wrap_words textlength new_width (split caption)"

text \<open>
  The wrap as the specification words it, on word groups: words are accumulated into the
  current line while the extended line measures under the limit; otherwise the current line
  is closed (when it holds a word) and a new line starts with the word.
\<close>

fun greedy_groups :: "(string \<Rightarrow> real) \<Rightarrow> real \<Rightarrow> string list \<Rightarrow> string list
    \<Rightarrow> string list list" where
  "greedy_groups textlength limit cur [] = (if cur = [] then [] else [cur])"
| "greedy_groups textlength limit cur (w # ws) =
     (if textlength (join '' '' (cur @ [w])) < limit
      then greedy_groups textlength limit (cur @ [w]) ws
      else (if cur = [] then [] else [cur]) @ greedy_groups textlength limit [w] ws)"

text \<open>
  What greediness means for the finished lines, as a check on a list of word groups: a line
  of two or more words measures under the limit, and a line followed by another could not
  have taken the next line's first word.
\<close>

fun greedy_ok :: "(string \<Rightarrow> real) \<Rightarrow> real \<Rightarrow> string list list \<Rightarrow> bool" where
  "greedy_ok textlength limit [] = True"
| "greedy_ok textlength limit [g] =
     (g \<noteq> [] \<and> (1 < length g \<longrightarrow> textlength (join '' '' g) < limit))"
| "greedy_ok textlength limit (g # h # gs) =
     (g \<noteq> [] \<and> (1 < length g \<longrightarrow> textlength (join '' '' g) < limit)
      \<and> h \<noteq> [] \<and> \<not> textlength (join '' '' (g @ [hd h])) < limit
      \<and> greedy_ok textlength limit (h # gs))"


section \<open>Text chunking (text\_+\_image.py)\<close>

fun chunk_loop :: "int \<Rightarrow> string list \<Rightarrow> string list \<Rightarrow> string list
    \<Rightarrow> string list \<times> string list" where
  "chunk_loop max_len chunks cur [] = (chunks, cur)"
| "chunk_loop max_len chunks cur (w # words) =
     (let cur = cur @ [w] in
      if int (length cur) \<ge> max_len
      then chunk_loop max_len (chunks @ [join '' '' cur]) [] words
      else chunk_loop max_len chunks cur words)"

definition chunk_text :: "string \<Rightarrow> int \<Rightarrow> string list" where
  "chunk_text text max_len =
     (case chunk_loop max_len [] [] (split text) of
        (chunks, cur) \<Rightarrow> if cur \<noteq> [] then chunks @ [join '' '' cur] else chunks)"


section \<open>Region detector (test-process/main.py)\<close>

text \<open>A bounding rectangle \<open>(x, y, w, h)\<close> as \<open>cv2.boundingRect\<close> returns it.\<close>

type_synonym rect = "int \<times> int \<times> int \<times> int"

definition rect_y :: "rect \<Rightarrow> int" where
  "rect_y r = (case r of (x, y, w, h) \<Rightarrow> y)"

definition MIN_AREA :: int where "MIN_AREA = 40000"
definition MIN_WIDTH :: int where "MIN_WIDTH = 250"
definition MIN_HEIGHT :: int where "MIN_HEIGHT = 180"

text \<open>
  A saved crop: the page number and counter of its file name
  \<open>graph_{page_no+1}_{img_count}.png\<close>, and the rectangle cut out of the page.
\<close>

record graph_file =
  gf_page :: nat
  gf_count :: nat
  gf_rect :: rect

text \<open>
  The loop over the (already sorted) contours of one page. \<open>boundingRect\<close> is the image
  library's function from a contour to its rectangle.
\<close>

fun contour_loop :: "('c \<Rightarrow> rect) \<Rightarrow> nat \<Rightarrow> 'c list \<Rightarrow> nat \<Rightarrow> graph_file list
    \<Rightarrow> nat \<times> graph_file list" where
  "contour_loop boundingRect page_no [] img_count saved = (img_count, saved)"
| "contour_loop boundingRect page_no (cnt # contours) img_count saved =
     (case boundingRect cnt of (x, y, w, h) \<Rightarrow>
        let area = w * h in
        if area < MIN_AREA \<or> w < MIN_WIDTH \<or> h < MIN_HEIGHT
        then contour_loop boundingRect page_no contours img_count saved
        else contour_loop boundingRect page_no contours (img_count + 1)
               (saved @ [\<lparr>gf_page = page_no + 1, gf_count = img_count + 1,
                          gf_rect = (x, y, w, h)\<rparr>]))"

text \<open>
  One page: \<open>sorted(contours, key=lambda c: cv2.boundingRect(c)[1])\<close> (a stable sort),
  then the loop.
\<close>

definition page_graphs :: "('c \<Rightarrow> rect) \<Rightarrow> nat \<Rightarrow> 'c list \<Rightarrow> nat \<Rightarrow> nat \<times> graph_file list" where
  "page_graphs boundingRect page_no contours img_count =
     contour_loop boundingRect page_no
       (sort_key (\<lambda>c. rect_y (boundingRect c)) contours) img_count []"

text \<open>The region candidates of one page, in the order they are written out.\<close>

definition page_regions :: "('c \<Rightarrow> rect) \<Rightarrow> 'c list \<Rightarrow> rect list" where
  "page_regions boundingRect contours =
     map gf_rect (snd (page_graphs boundingRect 0 contours 0))"

text \<open>
  The loop over the pages; each page is given by the contours found on it.
  \<open>extract_graphs\<close> returns \<open>img_count\<close>; the files written are kept beside it.
\<close>

fun pages_loop :: "('c \<Rightarrow> rect) \<Rightarrow> nat \<Rightarrow> 'c list list \<Rightarrow> nat \<Rightarrow> graph_file list
    \<Rightarrow> nat \<times> graph_file list" where
  "pages_loop boundingRect page_no [] img_count files = (img_count, files)"
| "pages_loop boundingRect page_no (contours # pages) img_count files =
     (case page_graphs boundingRect page_no contours img_count of
        (img_count', saved) \<Rightarrow>
          pages_loop boundingRect (page_no + 1) pages img_count' (files @ saved))"

definition extract_graphs :: "('c \<Rightarrow> rect) \<Rightarrow> 'c list list \<Rightarrow> nat \<times> graph_file list" where
  "extract_graphs boundingRect pages = pages_loop boundingRect 0 pages 0 []"

text \<open>
  The detector as the specification orders its steps: reject the rectangles under the
  minimum area, width or height, then sort the survivors by top edge.
\<close>

definition passes_filter :: "rect \<Rightarrow> bool" where
  "passes_filter r = (case r of (x, y, w, h) \<Rightarrow> w * h \<ge> 40000 \<and> w \<ge> 250 \<and> h \<ge> 180)"

definition spec_regions :: "rect list \<Rightarrow> rect list" where
  "spec_regions rects = sort_key rect_y (filter passes_filter rects)"


section \<open>Exceptions, numbers as text, paths\<close>

text \<open>An exception, with the text \<open>str(e)\<close> gives for it.\<close>

datatype py_error = Error string

fun str_error :: "py_error \<Rightarrow> string" where
  "str_error (Error msg) = msg"

text \<open>\<open>str(n)\<close> and the format \<open>{n:03d}\<close> for a non-negative integer.\<close>

definition digit_char :: "nat \<Rightarrow> char" where
  "digit_char d = ''0123456789'' ! d"

fun str_nat :: "nat \<Rightarrow> string" where
  "str_nat n = (if n < 10 then [digit_char n] else str_nat (n div 10) @ [digit_char (n mod 10)])"

declare str_nat.simps [simp del]

definition format_03d :: "nat \<Rightarrow> string" where
  "format_03d n = replicate (3 - length (str_nat n)) CHR ''0'' @ str_nat n"

text \<open>\<open>s.strip()\<close>, \<open>s.rstrip()\<close> and \<open>os.path.join(a, b)\<close> for a relative \<open>b\<close>.\<close>

definition rstrip :: "string \<Rightarrow> string" where
  "rstrip s = rev (dropWhile isspace (rev s))"

definition strip :: "string \<Rightarrow> string" where
  "strip s = rstrip (dropWhile isspace s)"

definition path_join :: "string \<Rightarrow> string \<Rightarrow> string" where
  "path_join a b = (if a = [] then b else if last a = CHR ''/'' then a @ b else a @ ''/'' @ b)"


section \<open>Images and fonts of the image library\<close>

type_synonym colour = "nat \<times> nat \<times> nat"

definition white :: colour where "white = (255, 255, 255)"
definition black :: colour where "black = (0, 0, 0)"

text \<open>
  An RGB image: its size and the colour at each coordinate (column, row). Only the
  coordinates inside the size are pixels of the image.
\<close>

record image =
  width :: nat
  height :: nat
  pixel :: "int \<Rightarrow> int \<Rightarrow> colour"

text \<open>
  A font: the measure behind \<open>draw.textlength\<close>, and the pixels a rendered string covers,
  relative to the position it is drawn at (anti-aliasing is not modelled: a covered pixel
  takes the fill colour).
\<close>

record font =
  font_textlength :: "string \<Rightarrow> real"
  font_ink :: "string \<Rightarrow> int \<Rightarrow> int \<Rightarrow> bool"

text \<open>
  What the extractors use of their libraries and of the system: \<open>ImageFont.truetype\<close>
  (which raises when the font file is not found), \<open>ImageFont.load_default\<close>,
  \<open>str.isalnum\<close> on a character, and the outcome of writing a file at a path (the
  exception raised, or \<open>None\<close> when the file is written).
\<close>

record pylib =
  truetype :: "string \<Rightarrow> int \<Rightarrow> py_error + font"
  load_default :: font
  isalnum :: "char \<Rightarrow> bool"
  write_file :: "string \<Rightarrow> py_error option"

text \<open>\<open>Image.new('RGB', dims, color)\<close>: a negative size raises \<open>ValueError\<close>.\<close>

definition Image_new :: "int \<times> int \<Rightarrow> colour \<Rightarrow> py_error + image" where
  "Image_new dims color =
     (case dims of (w, h) \<Rightarrow>
        if w < 0 \<or> h < 0 then Inl (Error ''Width and height must be >= 0'')
        else Inr \<lparr>width = nat w, height = nat h, pixel = (\<lambda>x y. color)\<rparr>)"

definition inside :: "image \<Rightarrow> int \<Rightarrow> int \<Rightarrow> bool" where
  "inside img x y = (0 \<le> x \<and> x < int (width img) \<and> 0 \<le> y \<and> y < int (height img))"

text \<open>\<open>draw.text(pos, line, fill=fill, font=font)\<close> on the image \<open>img\<close>.\<close>

definition draw_text :: "image \<Rightarrow> int \<times> int \<Rightarrow> string \<Rightarrow> colour \<Rightarrow> font \<Rightarrow> image" where
  "draw_text img pos line fill fnt =
     (case pos of (px, py) \<Rightarrow>
        img\<lparr>pixel := (\<lambda>x y. if inside img x y \<and> font_ink fnt line (x - px) (y - py)
                               then fill else pixel img x y)\<rparr>)"

text \<open>\<open>dst.paste(src, (ox, oy))\<close>: the part of \<open>src\<close> that falls inside \<open>dst\<close> replaces it.\<close>

definition paste :: "image \<Rightarrow> image \<Rightarrow> int \<times> int \<Rightarrow> image" where
  "paste dst src pos =
     (case pos of (ox, oy) \<Rightarrow>
        dst\<lparr>pixel := (\<lambda>x y. if inside dst x y \<and> inside src (x - ox) (y - oy)
                               then pixel src (x - ox) (y - oy) else pixel dst x y)\<rparr>)"

text \<open>
  \<open>img.save(path)\<close>: the image library raises on an image without pixels; otherwise the
  outcome is that of writing the file.
\<close>

definition image_save :: "pylib \<Rightarrow> image \<Rightarrow> string \<Rightarrow> py_error option" where
  "image_save lib img path =
     (if width img = 0 \<or> height img = 0 then Some (Error ''cannot write empty image'')
      else write_file lib path)"


section \<open>Caption compositor (image\_extract.py, text\_image\_extract.py)\<close>

text \<open>The loop drawing the lines, with its variable \<open>y_offset\<close>.\<close>

fun draw_lines :: "font \<Rightarrow> int \<Rightarrow> string list \<Rightarrow> int \<Rightarrow> image \<Rightarrow> image" where
  "draw_lines fnt font_size [] y_offset new_img = new_img"
| "draw_lines fnt font_size (line # lines) y_offset new_img =
     draw_lines fnt font_size lines (y_offset + (font_size + 5))
       (draw_text new_img (20, y_offset) line black fnt)"

text \<open>
  The block ``create a new image with caption on top'', the same text in both extractors:
  the white image, the font with its fallback, the wrapped caption, the drawn lines, and
  the original image pasted below.
\<close>

definition caption_composite :: "pylib \<Rightarrow> int \<Rightarrow> image \<Rightarrow> string \<Rightarrow> py_error + image" where
  "caption_composite lib font_size pil_image caption =
     (let caption_height = font_size + 20;
          new_width = int (width pil_image);
          new_height = int (height pil_image) + caption_height
      in case Image_new (new_width, new_height) white of
           Inl e \<Rightarrow> Inl e
         | Inr new_img \<Rightarrow>
             let fnt = (case truetype lib ''arial.ttf'' font_size of
                          Inr f \<Rightarrow> f
                        | Inl e \<Rightarrow> load_default lib);
                 lines = wrap_caption (font_textlength fnt) new_width caption;
                 new_img = draw_lines fnt font_size lines 10 new_img
             in Inr (paste new_img pil_image (0, caption_height)))"

section \<open>Graph extraction with captions (image\_extract.py)\<close>

text \<open>
  How a document item gives access to its image: through a method \<open>get_image\<close> (whose call
  raises, returns \<open>None\<close> or returns an image), through an attribute \<open>image\<close> (which may be
  \<open>None\<close>), or not at all.
\<close>

datatype image_access =
  GetImage "py_error + image option"
| ImageAttr "image option"
| NoAccess

text \<open>
  A document item as the loop reads it: \<open>item.label.value\<close> (\<open>None\<close> without a label), the
  outcome of \<open>item.export_to_markdown()\<close>, the access to the image, and the page numbers
  of \<open>item.prov\<close> (empty when the attribute is absent or empty).
\<close>

record doc_item =
  label :: "string option"
  export_to_markdown :: "py_error + string"
  image_access :: image_access
  prov :: "nat list"

record graph_info =
  gi_index :: nat
  gi_caption :: string
  gi_image_path :: string
  gi_page :: "nat option"

text \<open>The variables of the loop, with the files saved and the lines printed so far.\<close>

record extract_state =
  st_pic_index :: nat
  st_extracted :: "graph_info list"
  st_png_files :: "(string \<times> image) list"
  st_stdout :: "string list"

text \<open>The first \<open>try\<close> of the loop body: the caption, with its fallback \<open>Graph {pic_index}\<close>.\<close>

definition graph_caption :: "doc_item \<Rightarrow> nat \<Rightarrow> string" where
  "graph_caption item pic_index =
     (case export_to_markdown item of
        Inr md \<Rightarrow>
          (let caption = strip md in
           if caption = [] then ''Graph '' @ str_nat pic_index else caption)
      | Inl e \<Rightarrow> ''Graph '' @ str_nat pic_index)"

text \<open>
  The body of the second \<open>try\<close> up to the test \<open>pil_image is None\<close>: the value of
  \<open>pil_image\<close>, or the exception raised on the way.
\<close>

definition get_pil_image :: "doc_item \<Rightarrow> py_error + image option" where
  "get_pil_image item =
     (case image_access item of
        GetImage r \<Rightarrow> r
      | ImageAttr img \<Rightarrow> Inr img
      | NoAccess \<Rightarrow> Inr None)"

definition safe_caption :: "pylib \<Rightarrow> string \<Rightarrow> string" where
  "safe_caption lib caption =
     rstrip (filter (\<lambda>c. isalnum lib c \<or> c \<in> set [CHR '' '', CHR ''-'', CHR ''_'']) caption)"

text \<open>
  The loop body for an item labelled \<open>picture\<close>. The two \<open>continue\<close> branches print a
  warning and leave everything but the counter as it was. Creating the composite and
  saving it stand outside the two \<open>try\<close> blocks: an exception there leaves the function.
\<close>

definition picture_step :: "pylib \<Rightarrow> string \<Rightarrow> int \<Rightarrow> extract_state \<Rightarrow> doc_item
    \<Rightarrow> py_error + extract_state" where
  "picture_step lib output_dir font_size s item =
     (let pic_index = st_pic_index s + 1;
          caption = graph_caption item pic_index
      in case get_pil_image item of
           Inl e \<Rightarrow>
             Inr (s\<lparr>st_pic_index := pic_index,
                    st_stdout := st_stdout s @
                      [''Warning: Could not get image for graph '' @ str_nat pic_index
                         @ '': '' @ str_error e]\<rparr>)
         | Inr None \<Rightarrow>
             Inr (s\<lparr>st_pic_index := pic_index,
                    st_stdout := st_stdout s @
                      [''Warning: No image found for graph '' @ str_nat pic_index]\<rparr>)
         | Inr (Some pil_image) \<Rightarrow>
             (case caption_composite lib font_size pil_image caption of
                Inl e \<Rightarrow> Inl e
              | Inr new_img \<Rightarrow>
                  let filename = format_03d pic_index @ ''_''
                                   @ take 50 (safe_caption lib caption) @ ''.png'';
                      image_path = path_join output_dir filename
                  in case image_save lib new_img image_path of
                       Some e \<Rightarrow> Inl e
                     | None \<Rightarrow>
                         Inr (s\<lparr>st_pic_index := pic_index,
                            st_extracted := st_extracted s @
                              [\<lparr>gi_index = pic_index, gi_caption = caption,
                                gi_image_path = image_path,
                                gi_page = (case prov item of [] \<Rightarrow> None | p # ps \<Rightarrow> Some p)\<rparr>],
                            st_png_files := st_png_files s @ [(image_path, new_img)],
                            st_stdout := st_stdout s @
                              [''Saved graph '' @ str_nat pic_index @ '' as '' @ [CHR 0x27]
                                 @ filename @ [CHR 0x27] @ '' with headline: '' @ [CHR 0x27]
                                 @ take 50 caption @ ''...'' @ [CHR 0x27]]\<rparr>)))"

fun items_loop :: "pylib \<Rightarrow> string \<Rightarrow> int \<Rightarrow> doc_item list \<Rightarrow> extract_state
    \<Rightarrow> py_error + extract_state" where
  "items_loop lib output_dir font_size [] s = Inr s"
| "items_loop lib output_dir font_size (item # items) s =
     (if label item = Some ''picture''
      then (case picture_step lib output_dir font_size s item of
              Inl e \<Rightarrow> Inl e
            | Inr s' \<Rightarrow> items_loop lib output_dir font_size items s')
      else items_loop lib output_dir font_size items s)"

text \<open>
  What a call leaves behind: the list returned, the image files, the metadata file (its
  path and content) when it is written, and the printed lines.
\<close>

record extract_result =
  res_extracted :: "graph_info list"
  res_png_files :: "(string \<times> image) list"
  res_json_file :: "(string \<times> graph_info list) option"
  res_stdout :: "string list"

text \<open>
  The function on the items of the converted document (the conversion itself is the PDF
  library's). An exception that leaves the loop, or the writing of the metadata file,
  leaves the function: nothing is returned then.
\<close>

definition extract_graphs_to_single_file :: "pylib \<Rightarrow> doc_item list \<Rightarrow> string \<Rightarrow> int
    \<Rightarrow> py_error + extract_result" where
  "extract_graphs_to_single_file lib items output_dir font_size =
     (case items_loop lib output_dir font_size items
             \<lparr>st_pic_index = 0, st_extracted = [], st_png_files = [], st_stdout = []\<rparr> of
        Inl e \<Rightarrow> Inl e
      | Inr s \<Rightarrow>
          let extracted = st_extracted s in
          if extracted \<noteq> []
          then let json_path = path_join output_dir ''graphs_only.json'' in
               case write_file lib json_path of
                 Some e \<Rightarrow> Inl e
               | None \<Rightarrow>
                   Inr \<lparr>res_extracted = extracted, res_png_files = st_png_files s,
                    res_json_file = Some (json_path, extracted),
                    res_stdout = st_stdout s @
                      [''Saved metadata for '' @ str_nat (length extracted) @ '' graphs to ''
                         @ [CHR 0x27] @ json_path @ [CHR 0x27]]\<rparr>
          else Inr \<lparr>res_extracted = extracted, res_png_files = st_png_files s,
                    res_json_file = None,
                    res_stdout = st_stdout s @ [''No graphs found in the PDF.'']\<rparr>)"

section \<open>The vector store, as the scripts use its client\<close>

text \<open>
  The store is an external service; what is modelled is the contract the scripts consume.
  An object is kept under an id: the id the caller gives, or, when the caller gives none,
  one the client draws for the object (a random UUID; \<open>Assigned n\<close> is the \<open>n\<close>-th id
  drawn for a collection).
\<close>

type_synonym uuid = string

datatype object_id = Given uuid | Assigned nat

record weav_object =
  obj_properties :: "(string \<times> string) list"
  obj_vector :: "real list"

record collection =
  col_objects :: "object_id \<rightharpoonup> weav_object"
  col_assigned :: nat

type_synonym client = "string \<rightharpoonup> collection"

definition new_collection :: collection where
  "new_collection = \<lparr>col_objects = Map.empty, col_assigned = 0\<rparr>"


definition collections_delete :: "client \<Rightarrow> string \<Rightarrow> client" where
  "collections_delete client name = client(name := None)"

text \<open>\<open>client.collections.create\<close> raises when the name is taken.\<close>

definition collections_create :: "client \<Rightarrow> string \<Rightarrow> py_error + client \<times> collection" where
  "collections_create client name =
     (if client name \<noteq> None then Inl (Error ''collection already exists'')
      else Inr (client(name \<mapsto> new_collection), new_collection))"

text \<open>\<open>client.collections.get(name).config.get()\<close> raises when there is no such collection.\<close>

definition config_get :: "client \<Rightarrow> string \<Rightarrow> py_error + collection" where
  "config_get client name =
     (case client name of
        None \<Rightarrow> Inl (Error ''collection not found'')
      | Some col \<Rightarrow> Inr col)"

text \<open>
  The index configuration that \<open>config.get()\<close> returns has no attribute \<open>vector_size\<close>:
  reading \<open>cfg.vector_index_config.vector_size\<close> raises \<open>AttributeError\<close>, whatever the
  collection.
\<close>

definition config_vector_size :: "collection \<Rightarrow> py_error + nat" where
  "config_vector_size col =
     Inl (Error ''AttributeError: object has no attribute vector_size'')"

text \<open>
  \<open>Configure.VectorIndex.hnsw\<close> has no keyword \<open>vector_size\<close>: a call that passes one
  raises \<open>TypeError\<close> and builds no configuration.
\<close>

definition hnsw_with_vector_size :: "nat \<Rightarrow> py_error + unit" where
  "hnsw_with_vector_size vector_size =
     Inl (Error ''TypeError: hnsw() got an unexpected keyword argument vector_size'')"

text \<open>\<open>batch.add_object(properties, vector, uuid)\<close>: an upsert under the given id.\<close>

definition batch_add_object :: "collection \<Rightarrow> (string \<times> string) list \<Rightarrow> real list \<Rightarrow> uuid
    \<Rightarrow> collection" where
  "batch_add_object col props vec u =
     col\<lparr>col_objects := (col_objects col)(Given u \<mapsto> \<lparr>obj_properties = props, obj_vector = vec\<rparr>)\<rparr>"

text \<open>
  \<open>collection.data.insert(properties, vector)\<close> with no \<open>uuid\<close> argument: the client draws
  a new id and the object is stored under it.
\<close>

definition data_insert :: "collection \<Rightarrow> (string \<times> string) list \<Rightarrow> real list \<Rightarrow> collection" where
  "data_insert col props vec =
     col\<lparr>col_objects := (col_objects col)(Assigned (col_assigned col) \<mapsto>
            \<lparr>obj_properties = props, obj_vector = vec\<rparr>),
         col_assigned := col_assigned col + 1\<rparr>"


section \<open>Image indexing (image\_process/data\_store\_weav.py)\<close>


text \<open>\<open>img_path.name\<close>: the last component of the path.\<close>

definition path_name :: "string \<Rightarrow> string" where
  "path_name p = rev (takeWhile (\<lambda>c. c \<noteq> CHR ''/'') (rev p))"

record backup_entry =
  be_filename :: string
  be_path :: string
  be_vector :: "real list"

text \<open>What the batch loop changes: the collection, the list \<open>backup\<close>, the printed lines.\<close>

record index_run =
  run_collection :: collection
  run_backup :: "backup_entry list"
  run_stdout :: "string list"

text \<open>
  The loop over \<open>image_paths\<close>. \<open>encode\<close> is the outcome of opening the image and of
  \<open>model.encode\<close> on it: the vector, or the exception raised; \<open>generate_uuid5\<close> is the
  client library's function.
\<close>

fun batch_loop :: "(string \<Rightarrow> py_error + real list) \<Rightarrow> (string \<Rightarrow> uuid) \<Rightarrow> string list
    \<Rightarrow> index_run \<Rightarrow> index_run" where
  "batch_loop encode generate_uuid5 [] r = r"
| "batch_loop encode generate_uuid5 (img_path # image_paths) r =
     batch_loop encode generate_uuid5 image_paths
       (case encode img_path of
          Inr vec \<Rightarrow>
            r\<lparr>run_backup := run_backup r @
                 [\<lparr>be_filename = path_name img_path, be_path = img_path, be_vector = vec\<rparr>],
              run_collection :=
                 batch_add_object (run_collection r)
                   [(''filename'', path_name img_path), (''path'', img_path)]
                   vec (generate_uuid5 img_path)\<rparr>
        | Inl e \<Rightarrow>
            r\<lparr>run_stdout := run_stdout r @
                 [''Failed '' @ img_path @ '': '' @ str_error e]\<rparr>)"



section \<open>Text and image pipeline (text\_+\_image.py)\<close>

definition VECTOR_SIZE :: nat where "VECTOR_SIZE = 512"

text \<open>
  The \<open>try\<close> block of \<open>ensure_collection\<close>: the client as the block leaves it, and the
  collection returned or the exception raised. The inner \<open>try\<close> sets \<open>existing_dim\<close> to
  \<open>None\<close> when reading the vector size raises. The log lines are left out.
\<close>

definition ensure_try :: "client \<Rightarrow> string \<Rightarrow> client \<times> (py_error + collection)" where
  "ensure_try client name =
     (case config_get client name of
        Inl e \<Rightarrow> (client, Inl e)
      | Inr col \<Rightarrow>
          let existing_dim = (case config_vector_size col of
                                Inr d \<Rightarrow> Some d
                              | Inl e \<Rightarrow> None) in
          if existing_dim \<noteq> Some VECTOR_SIZE
          then (collections_delete client name, Inl (Error ''Recreate''))
          else (client, Inr col))"

text \<open>
  The function: the \<open>except\<close> branch builds the arguments of \<open>client.collections.create\<close>
  first, the index configuration with \<open>vector_size=VECTOR_SIZE\<close> among them, and calls it
  when they are built. An exception in that branch leaves the function.
\<close>

definition ensure_collection :: "client \<Rightarrow> client \<times> (py_error + collection)" where
  "ensure_collection client =
     (let name = ''PDFContent'' in
      case ensure_try client name of
        (client, Inr col) \<Rightarrow> (client, Inr col)
      | (client, Inl e) \<Rightarrow>
          (case hnsw_with_vector_size VECTOR_SIZE of
             Inl e' \<Rightarrow> (client, Inl e')
           | Inr index_config \<Rightarrow>
               (case collections_create client name of
                  Inl e' \<Rightarrow> (client, Inl e')
                | Inr (client', col) \<Rightarrow> (client', Inr col))))"

text \<open>The text blocks \<open>extract_docling_content\<close> returns.\<close>

record docling_content =
  headers :: "string list"
  paragraphs :: "string list"
  tables :: "string list"
  lists :: "string list"
  figures :: "string list"

text \<open>\<open>extract_images\<close>: one file per page of the PDF.\<close>

definition extract_images :: "nat \<Rightarrow> string list" where
  "extract_images n_pages =
     map (\<lambda>i. ''images/page_'' @ str_nat (i + 1) @ ''.png'') [0..<n_pages]"

text \<open>
  \<open>json.dumps({"path": path})\<close> for a path in which nothing needs escaping, as the paths
  of \<open>extract_images\<close> are.
\<close>

definition json_dumps_path :: "string \<Rightarrow> string" where
  "json_dumps_path path =
     ''{'' @ [CHR 0x22] @ ''path'' @ [CHR 0x22] @ '': '' @ [CHR 0x22] @ path @ [CHR 0x22] @ ''}''"

record chunk_item =
  ci_content :: string
  ci_type :: string
  ci_vector :: "real list"

text \<open>The inner loop over the chunks of one block, and the loop over the blocks.\<close>

fun insert_chunks :: "(string \<Rightarrow> real list) \<Rightarrow> string \<Rightarrow> string list
    \<Rightarrow> collection \<times> chunk_item list \<Rightarrow> collection \<times> chunk_item list" where
  "insert_chunks embed_text ttype [] (col, chunk_backup) = (col, chunk_backup)"
| "insert_chunks embed_text ttype (ch # chs) (col, chunk_backup) =
     (let vec = embed_text ch in
      insert_chunks embed_text ttype chs
        (data_insert col
           [(''content'', ch), (''content_type'', ttype), (''metadata'', ''{}'')] vec,
         chunk_backup @ [\<lparr>ci_content = ch, ci_type = ttype, ci_vector = vec\<rparr>]))"

fun insert_blocks :: "(string \<Rightarrow> real list) \<Rightarrow> (string \<times> string) list
    \<Rightarrow> collection \<times> chunk_item list \<Rightarrow> collection \<times> chunk_item list" where
  "insert_blocks embed_text [] acc = acc"
| "insert_blocks embed_text ((text, ttype) # blocks) acc =
     insert_blocks embed_text blocks
       (insert_chunks embed_text ttype (chunk_text text 300) acc)"

text \<open>
  The loop over the page images. \<open>embed_image\<close> is the outcome of opening the file and
  encoding it; an exception is not caught here and ends the loop.
\<close>

fun insert_images :: "(string \<Rightarrow> py_error + real list) \<Rightarrow> string list
    \<Rightarrow> collection \<times> (string \<times> real list) list
    \<Rightarrow> (collection \<times> (string \<times> real list) list) \<times> py_error option" where
  "insert_images embed_image [] (col, img_backup) = ((col, img_backup), None)"
| "insert_images embed_image (path # paths) (col, img_backup) =
     (case embed_image path of
        Inl e \<Rightarrow> ((col, img_backup), Some e)
      | Inr vec \<Rightarrow>
          insert_images embed_image paths
            (data_insert col
               [(''content'', path), (''content_type'', ''image''),
                (''metadata'', json_dumps_path path)] vec,
             img_backup @ [(path, vec)]))"

record pipeline_result =
  pp_client :: client
  pp_chunks :: "chunk_item list"
  pp_images :: "(string \<times> real list) list"
  pp_raised :: "py_error option"

text \<open>
  \<open>process_pdf\<close> on the extracted text blocks and the number of pages. An exception of
  \<open>ensure_collection\<close> is not caught and ends the run before any insert. The backup files
  hold the lists \<open>pp_chunks\<close> and \<open>pp_images\<close>; writing them is left out.
\<close>

definition process_pdf :: "(string \<Rightarrow> real list) \<Rightarrow> (string \<Rightarrow> py_error + real list) \<Rightarrow> client
    \<Rightarrow> docling_content \<Rightarrow> nat \<Rightarrow> pipeline_result" where
  "process_pdf embed_text embed_image client extracted n_pages =
     (case ensure_collection client of
        (client, Inl e) \<Rightarrow>
          \<lparr>pp_client = client, pp_chunks = [], pp_images = [], pp_raised = Some e\<rparr>
      | (client, Inr collection) \<Rightarrow>
          let images = extract_images n_pages;
              blocks = map (\<lambda>t. (t, ''header'')) (headers extracted)
                     @ map (\<lambda>t. (t, ''paragraph'')) (paragraphs extracted)
                     @ map (\<lambda>t. (t, ''list'')) (lists extracted)
                     @ map (\<lambda>t. (t, ''table'')) (tables extracted)
          in case insert_blocks embed_text blocks (collection, []) of
               (collection, chunk_backup) \<Rightarrow>
                 (case insert_images embed_image images (collection, []) of
                    ((collection, img_backup), raised) \<Rightarrow>
                      \<lparr>pp_client = client(''PDFContent'' \<mapsto> collection),
                       pp_chunks = chunk_backup, pp_images = img_backup,
                       pp_raised = raised\<rparr>))"


section \<open>Auxiliary definitions for the proofs\<close>

text \<open>Closing the last line (or chunk) after a loop: \<open>if cur: out.append(' '.join(cur))\<close>.\<close>

definition close_line :: "string list \<times> string list \<Rightarrow> string list" where
  "close_line p =
     (case p of (lines, cur) \<Rightarrow> if cur \<noteq> [] then lines @ [join '' '' cur] else lines)"

text \<open>The word groups behind the chunks of \<open>chunk_text\<close>.\<close>

fun chunk_groups :: "int \<Rightarrow> string list \<Rightarrow> string list \<Rightarrow> string list list" where
  "chunk_groups max_len cur [] = (if cur = [] then [] else [cur])"
| "chunk_groups max_len cur (w # ws) =
     (if int (length (cur @ [w])) \<ge> max_len
      then (cur @ [w]) # chunk_groups max_len [] ws
      else chunk_groups max_len (cur @ [w]) ws)"

text \<open>A measure for examples: every character is one unit wide.\<close>

definition fixed_pitch :: "string \<Rightarrow> real" where
  "fixed_pitch s = real (length s)"

text \<open>
  The indices reported for a list of items when the counter stands at \<open>n\<close>: every picture
  item counts, and a picture whose image is retrieved reports its count.
\<close>

definition is_picture :: "doc_item \<Rightarrow> bool" where
  "is_picture item = (label item = Some ''picture'')"

definition has_image :: "doc_item \<Rightarrow> bool" where
  "has_image item = (case get_pil_image item of Inr (Some img) \<Rightarrow> True | _ \<Rightarrow> False)"

fun reported_indices :: "nat \<Rightarrow> doc_item list \<Rightarrow> nat list" where
  "reported_indices n [] = []"
| "reported_indices n (item # items) =
     (if is_picture item
      then (if has_image item then [n + 1] else []) @ reported_indices (n + 1) items
      else reported_indices n items)"

text \<open>
  A picture item that cannot make the loop body raise at the save for want of pixels: its
  image, when it is retrieved, has a positive width.
\<close>

definition nonempty_picture :: "doc_item \<Rightarrow> bool" where
  "nonempty_picture item =
     (case get_pil_image item of Inr (Some img) \<Rightarrow> 0 < width img | _ \<Rightarrow> True)"

text \<open>Fixtures for examples: a font, the libraries, two images, four document items.\<close>

definition example_font :: font where
  "example_font =
     \<lparr>font_textlength = fixed_pitch,
      font_ink = (\<lambda>line dx dy. 0 \<le> dx \<and> dx < int (length line) \<and> 0 \<le> dy \<and> dy < 10)\<rparr>"

definition example_lib :: pylib where
  "example_lib =
     \<lparr>truetype = (\<lambda>name sz. Inl (Error ''cannot open resource'')),
      load_default = example_font,
      isalnum = (\<lambda>c. c \<in> set ''abcdefghijklmnopqrstuvwxyzABCDEFGHIJKLMNOPQRSTUVWXYZ0123456789''),
      write_file = (\<lambda>path. None)\<rparr>"

definition example_image :: image where
  "example_image = \<lparr>width = 100, height = 50, pixel = (\<lambda>x y. (nat x, nat y, 0))\<rparr>"

definition empty_image :: image where
  "empty_image = \<lparr>width = 0, height = 50, pixel = (\<lambda>x y. white)\<rparr>"

definition picture_empty :: doc_item where
  "picture_empty =
     \<lparr>label = Some ''picture'', export_to_markdown = Inr ''Blank'',
      image_access = GetImage (Inr (Some empty_image)), prov = [1]\<rparr>"

definition picture_ok :: doc_item where
  "picture_ok =
     \<lparr>label = Some ''picture'', export_to_markdown = Inr ''Revenue by quarter'',
      image_access = GetImage (Inr (Some example_image)), prov = [2]\<rparr>"

definition picture_broken :: doc_item where
  "picture_broken =
     \<lparr>label = Some ''picture'', export_to_markdown = Inr ''Margins'',
      image_access = GetImage (Inl (Error ''cannot decode'')), prov = [3]\<rparr>"

definition paragraph_item :: doc_item where
  "paragraph_item =
     \<lparr>label = Some ''paragraph'', export_to_markdown = Inr ''Some text'',
      image_access = NoAccess, prov = [1]\<rparr>"

text \<open>An image path the batch loop encodes without an exception.\<close>

definition encodes :: "(string \<Rightarrow> py_error + real list) \<Rightarrow> string \<Rightarrow> bool" where
  "encodes encode p = (case encode p of Inr vec \<Rightarrow> True | Inl e \<Rightarrow> False)"


text \<open>The object a client holds under an id in a named collection.\<close>

definition stored :: "client \<Rightarrow> string \<Rightarrow> object_id \<Rightarrow> weav_object option" where
  "stored client name oid = (case client name of None \<Rightarrow> None | Some col \<Rightarrow> col_objects col oid)"

text \<open>Fixtures for examples: a server, embedders, an id function, a collection.\<close>

definition no_collections :: client where
  "no_collections = Map.empty"

definition example_encode :: "string \<Rightarrow> py_error + real list" where
  "example_encode p =
     (if p = ''graphs_only/bad.png'' then Inl (Error ''cannot identify image file'')
      else Inr [1, 0])"


definition example_uuid5 :: "string \<Rightarrow> uuid" where
  "example_uuid5 p = ''uuid5:'' @ p"

definition existing_collection :: collection where
  "existing_collection =
     \<lparr>col_objects = [Assigned 0 \<mapsto> \<lparr>obj_properties = [(''content'', ''kept'')], obj_vector = [1]\<rparr>],
      col_assigned = 1\<rparr>"









text \<open>The states the two loops start from.\<close>

definition empty_run :: index_run where
  "empty_run = \<lparr>run_collection = new_collection, run_backup = [], run_stdout = []\<rparr>"

definition initial_state :: extract_state where
  "initial_state = \<lparr>st_pic_index = 0, st_extracted = [], st_png_files = [], st_stdout = []\<rparr>"


section \<open>Splitting and joining\<close>

lemma split_aux_nospace:
  "\<not> list_ex isspace w \<Longrightarrow> split_aux acc (w @ s) = split_aux (acc @ w) s"
  by (induction w arbitrary: acc) auto

lemma split_aux_space:
  "isspace c \<Longrightarrow> split_aux cur (a @ c # b) = split_aux cur a @ split b"
  by (induction a arbitrary: cur) (auto simp: split_def)

lemma isspace_space: "isspace CHR '' ''"
  by (simp add: isspace_def)

lemma split_word: "is_word w \<Longrightarrow> split w = [w]"
  using split_aux_nospace [of w "[]" "[]"] by (simp add: split_def is_word_def)

lemma split_word_sp: "is_word w \<Longrightarrow> split (w @ CHR '' '' # s) = w # split s"
  using split_aux_nospace [of w "[]" "CHR '' '' # s"]
  by (simp add: split_def is_word_def isspace_space)

lemma split_join: "list_all is_word ws \<Longrightarrow> split (join '' '' ws) = ws"
proof (induction "'' ''" ws rule: join.induct)
  case 1
  then show ?case by (simp add: split_def)
next
  case (2 x)
  then show ?case by (simp add: split_word)
next
  case (3 x y ys)
  then show ?case by (simp add: split_word_sp)
qed

lemma split_aux_words:
  "\<not> list_ex isspace cur \<Longrightarrow> list_all is_word (split_aux cur s)"
  by (induction cur s rule: split_aux.induct) (auto simp: is_word_def)

lemma split_words: "list_all is_word (split s)"
  by (simp add: split_def split_aux_words)

lemma split_join_lines: "split (join '' '' ls) = concat (map split ls)"
proof (induction "'' ''" ls rule: join.induct)
  case 1
  then show ?case by (simp add: split_def)
next
  case (2 x)
  then show ?case by simp
next
  case (3 x y ys)
  have "split (x @ CHR '' '' # join '' '' (y # ys)) = split x @ split (join '' '' (y # ys))"
    using split_aux_space [OF isspace_space, of "[]" x] by (simp add: split_def)
  with 3 show ?case by simp
qed

lemma split_join_groups:
  "list_all is_word (concat gs) \<Longrightarrow> concat (map split (map (join '' '') gs)) = concat gs"
  by (induction gs) (auto simp: split_join)

lemma length_split_join_groups:
  "list_all is_word (concat gs) \<Longrightarrow>
   list_all (\<lambda>c. Q (length (split c))) (map (join '' '') gs) = list_all (\<lambda>g. Q (length g)) gs"
  by (induction gs) (auto simp: split_join)

lemma join_snoc: "cur \<noteq> [] \<Longrightarrow> join sep (cur @ [w]) = join sep cur @ sep @ w"
  by (induction sep cur rule: join.induct) auto


section \<open>The region detector\<close>

lemma contour_loop_rects:
  "map gf_rect (snd (contour_loop bR p cs n saved)) =
     map gf_rect saved @ filter passes_filter (map bR cs)"
  by (induction cs arbitrary: n saved)
     (auto simp: passes_filter_def MIN_AREA_def MIN_WIDTH_def MIN_HEIGHT_def split: prod.splits)

lemma map_sort_key_comp: "map g (sort_key (\<lambda>c. f (g c)) cs) = sort_key f (map g cs)"
proof (induction cs)
  case Nil
  then show ?case by simp
next
  case (Cons c cs)
  have ins: "map g (insort_key (\<lambda>c. f (g c)) x ys) = insort_key f (g x) (map g ys)" for x ys
    by (induction ys) auto
  show ?case using Cons by (simp add: ins)
qed

lemma page_regions_eq:
  "page_regions bR cs = filter passes_filter (sort_key rect_y (map bR cs))"
  by (simp add: page_regions_def page_graphs_def contour_loop_rects map_sort_key_comp)

text \<open>
  C2. For every list of contours, in whatever order, the region candidates of a page come
  out sorted by top-edge y ascending; and sorting all contours by y and then filtering, as
  the code does, gives the same ordered list as filtering the rectangles first and sorting
  the survivors, as the specification orders the steps.
\<close>

theorem page_regions_sorted_any_order:
  "sorted (map rect_y (page_regions bR cs))
   \<and> page_regions bR cs = spec_regions (map bR cs)"
  by (simp add: page_regions_eq spec_regions_def filter_sort sorted_filter)

text \<open>
  C3. A bounding rectangle \<open>(x, y, w, h)\<close> is kept exactly when \<open>w * h \<ge> 40000\<close>,
  \<open>w \<ge> 250\<close> and \<open>h \<ge> 180\<close>. The decision looks at that rectangle alone: the output is
  the filter of the sorted rectangles, and a passing rectangle is reported as many times as
  contours have it, so overlapping (even equal) rectangles that pass are all reported.
\<close>

theorem page_regions_kept_iff:
  "page_regions bR cs =
     filter (\<lambda>(x, y, w, h). w * h \<ge> 40000 \<and> w \<ge> 250 \<and> h \<ge> 180)
       (sort_key rect_y (map bR cs))
   \<and> count (mset (page_regions bR cs)) (x, y, w, h) =
       (if w * h \<ge> 40000 \<and> w \<ge> 250 \<and> h \<ge> 180
        then count (mset (map bR cs)) (x, y, w, h) else 0)"
proof -
  have pf: "passes_filter = (\<lambda>(x, y, w, h). w * h \<ge> 40000 \<and> w \<ge> 250 \<and> h \<ge> 180)"
    by (auto simp: passes_filter_def fun_eq_iff)
  show ?thesis
    by (simp add: page_regions_eq pf filter_sort)
qed


section \<open>The caption word-wrap\<close>

lemma wrap_loop_groups:
  "close_line (wrap_loop tlen limit lines cur ws) =
     lines @ map (join '' '') (greedy_groups tlen limit cur ws)"
  by (induction ws arbitrary: lines cur) (auto simp: close_line_def Let_def)

lemma wrap_words_groups:
  "wrap_words tlen W ws = map (join '' '') (greedy_groups tlen (real_of_int (W - 40)) [] ws)"
  using wrap_loop_groups [of tlen "real_of_int (W - 40)" "[]" "[]" ws]
  by (simp add: wrap_words_def close_line_def)

lemma concat_greedy_groups: "concat (greedy_groups tlen limit cur ws) = cur @ ws"
  by (induction ws arbitrary: cur) auto

lemma greedy_groups_head:
  "cur \<noteq> [] \<Longrightarrow> \<exists>h gs. greedy_groups tlen limit cur ws = h # gs \<and> h \<noteq> [] \<and> hd h = hd cur"
proof (induction ws arbitrary: cur)
  case Nil
  then show ?case by simp
next
  case (Cons w ws)
  show ?case
  proof (cases "tlen (join '' '' (cur @ [w])) < limit")
    case True
    then show ?thesis using Cons.IH [of "cur @ [w]"] Cons.prems by simp
  next
    case False
    then show ?thesis using Cons.prems by simp
  qed
qed

lemma greedy_ok_groups:
  "1 < length cur \<longrightarrow> tlen (join '' '' cur) < limit \<Longrightarrow>
   greedy_ok tlen limit (greedy_groups tlen limit cur ws)"
proof (induction ws arbitrary: cur)
  case Nil
  then show ?case by simp
next
  case (Cons w ws)
  show ?case
  proof (cases "tlen (join '' '' (cur @ [w])) < limit")
    case True
    then show ?thesis using Cons.IH [of "cur @ [w]"] by simp
  next
    case False
    have ok1: "greedy_ok tlen limit (greedy_groups tlen limit [w] ws)"
      using Cons.IH [of "[w]"] by simp
    show ?thesis
    proof (cases "cur = []")
      case True
      then show ?thesis using False ok1 by simp
    next
      case nonempty: False
      obtain h gs where h: "greedy_groups tlen limit [w] ws = h # gs" "h \<noteq> []" "hd h = w"
        using greedy_groups_head [of "[w]" tlen limit ws] by auto
      show ?thesis using False nonempty ok1 h Cons.prems by simp
    qed
  qed
qed

lemma oversize_step:
  assumes mono: "\<forall>a b. tlen a \<le> tlen (a @ b) \<and> tlen b \<le> tlen (a @ b)"
    and big: "\<not> tlen w < limit"
  shows "greedy_groups tlen limit cur (w # post) =
     (if cur = [] then [] else [cur]) @ [w] # greedy_groups tlen limit [] post"
proof -
  have nofit: "\<not> tlen (join '' '' (cur @ [w])) < limit"
  proof (cases "cur = []")
    case True
    then show ?thesis using big by simp
  next
    case False
    have "tlen w \<le> tlen ((join '' '' cur @ '' '') @ w)" using mono by blast
    then show ?thesis using big False by (simp add: join_snoc)
  qed
  have alone: "greedy_groups tlen limit [w] post = [w] # greedy_groups tlen limit [] post"
  proof (cases post)
    case Nil
    then show ?thesis by simp
  next
    case (Cons v vs)
    have "tlen w \<le> tlen (w @ ('' '' @ v))" using mono by blast
    then have "\<not> tlen (join '' '' [w, v]) < limit" using big by simp
    then show ?thesis using Cons by simp
  qed
  show ?thesis using nofit alone by simp
qed

lemma oversize_line:
  assumes mono: "\<forall>a b. tlen a \<le> tlen (a @ b) \<and> tlen b \<le> tlen (a @ b)"
    and big: "\<not> tlen w < limit"
  shows "[w] \<in> set (greedy_groups tlen limit cur (pre @ w # post))"
proof (induction pre arbitrary: cur)
  case Nil
  then show ?case using oversize_step [OF mono big, of cur post] by simp
next
  case (Cons p pre)
  then show ?case by simp
qed

text \<open>
  C7. The word-wrap is greedy. The lines the loop produces are the word groups of the
  wrap as the specification words it (a word joins the current line exactly when the
  extended line measures strictly under \<open>image_width - 40\<close>, otherwise the current line, if it
  holds a word, is closed and the word starts a new one), joined by spaces. Hence the
  groups are the words in order, every line of several words is under the limit, and no
  line could have taken the first word of the next. A caption of one word gives that word
  as its line, whatever it measures; and among several words, a word that alone is not
  under the limit is a line by itself when the measure does not shrink as text is added
  before or after.
\<close>

theorem wrap_words_greedy:
  "wrap_words tlen W words =
     map (join '' '') (greedy_groups tlen (real_of_int (W - 40)) [] words)
   \<and> concat (greedy_groups tlen (real_of_int (W - 40)) [] words) = words
   \<and> greedy_ok tlen (real_of_int (W - 40)) (greedy_groups tlen (real_of_int (W - 40)) [] words)
   \<and> wrap_words tlen W [w] = [w]
   \<and> ((\<forall>a b. tlen a \<le> tlen (a @ b) \<and> tlen b \<le> tlen (a @ b)) \<and> v \<in> set words
        \<and> \<not> tlen v < real_of_int (W - 40) \<longrightarrow> v \<in> set (wrap_words tlen W words))"
proof -
  let ?limit = "real_of_int (W - 40)"
  have 1: "wrap_words tlen W words = map (join '' '') (greedy_groups tlen ?limit [] words)"
    by (rule wrap_words_groups)
  have 2: "concat (greedy_groups tlen ?limit [] words) = words"
    by (simp add: concat_greedy_groups)
  have 3: "greedy_ok tlen ?limit (greedy_groups tlen ?limit [] words)"
    by (rule greedy_ok_groups) simp
  have 4: "wrap_words tlen W [w] = [w]"
    by (simp add: wrap_words_groups)
  have 5: "v \<in> set (wrap_words tlen W words)"
    if mono: "\<forall>a b. tlen a \<le> tlen (a @ b) \<and> tlen b \<le> tlen (a @ b)"
      and mem: "v \<in> set words" and big: "\<not> tlen v < ?limit"
  proof -
    obtain pre post where "words = pre @ v # post"
      using mem by (auto simp: in_set_conv_decomp)
    then have "[v] \<in> set (greedy_groups tlen ?limit [] words)"
      using oversize_line [OF mono big, of "[]" pre post] by simp
    then have "join '' '' [v] \<in> set (wrap_words tlen W words)"
      unfolding 1 by (simp only: set_map) (rule imageI)
    then show ?thesis by simp
  qed
  from 1 2 3 4 5 show ?thesis by blast
qed

theorem wrap_words_greedy_witness:
  "wrap_words fixed_pitch 46 [''aa'', ''bbbbbbb'', ''c'', ''d''] = [''aa'', ''bbbbbbb'', ''c d'']
   \<and> greedy_ok fixed_pitch 6 [[''aa''], [''bbbbbbb''], [''c'', ''d'']]
   \<and> ''bbbbbbb'' \<in> set (wrap_words fixed_pitch 46 [''aa'', ''bbbbbbb'', ''c'', ''d''])"
  using wrap_words_greedy
    [of fixed_pitch 46 "[''aa'', ''bbbbbbb'', ''c'', ''d'']" "''aa''" "''bbbbbbb''"]
  by (simp add: fixed_pitch_def)

text \<open>
  C8. The word-wrap loses and duplicates no text: for every caption and every measure, the
  words of the produced lines, line after line, are exactly the words of the caption in
  their order (whether each line is split by itself or the lines are first joined by a
  separating space).
\<close>

theorem wrap_caption_keeps_words:
  "concat (map split (wrap_caption tlen W caption)) = split caption
   \<and> split (join '' '' (wrap_caption tlen W caption)) = split caption"
proof -
  let ?gs = "greedy_groups tlen (real_of_int (W - 40)) [] (split caption)"
  have "concat ?gs = split caption" by (simp add: concat_greedy_groups)
  moreover have "list_all is_word (concat ?gs)" by (simp add: concat_greedy_groups split_words)
  ultimately have "concat (map split (wrap_caption tlen W caption)) = split caption"
    using split_join_groups [of ?gs] by (simp add: wrap_caption_def wrap_words_groups)
  then show ?thesis by (simp add: split_join_lines)
qed


section \<open>Text chunking\<close>

lemma chunk_loop_groups:
  "close_line (chunk_loop m chunks cur ws) = chunks @ map (join '' '') (chunk_groups m cur ws)"
  by (induction ws arbitrary: chunks cur) (auto simp: close_line_def Let_def)

lemma chunk_text_groups:
  "chunk_text text m = map (join '' '') (chunk_groups m [] (split text))"
  using chunk_loop_groups [of m "[]" "[]" "split text"]
  by (simp add: chunk_text_def close_line_def)

lemma concat_chunk_groups: "concat (chunk_groups m cur ws) = cur @ ws"
  by (induction ws arbitrary: cur) auto

lemma chunk_groups_le:
  "int (length cur) < m \<Longrightarrow> list_all (\<lambda>g. int (length g) \<le> m) (chunk_groups m cur ws)"
  by (induction ws arbitrary: cur) auto

lemma chunk_groups_full:
  "int (length cur) < m \<Longrightarrow> list_all (\<lambda>g. int (length g) = m) (butlast (chunk_groups m cur ws))"
  by (induction ws arbitrary: cur) auto

text \<open>
  C9. For every string and every \<open>max_len \<ge> 1\<close>, the chunks of \<open>chunk_text\<close> hold at most
  \<open>max_len\<close> words each, every chunk but the last holds exactly \<open>max_len\<close> words, the words
  of the chunks in order are the words of the input, and the empty string gives no chunk.
\<close>

theorem chunk_text_chunks:
  assumes "1 \<le> max_len"
  shows "list_all (\<lambda>c. int (length (split c)) \<le> max_len) (chunk_text text max_len)
    \<and> list_all (\<lambda>c. int (length (split c)) = max_len) (butlast (chunk_text text max_len))
    \<and> concat (map split (chunk_text text max_len)) = split text
    \<and> chunk_text [] max_len = []"
proof -
  let ?gs = "chunk_groups max_len [] (split text)"
  have w: "list_all is_word (concat ?gs)" by (simp add: concat_chunk_groups split_words)
  have wb: "list_all is_word (concat (butlast ?gs))"
    using w by (metis append_butlast_last_id butlast.simps(1) concat_append list_all_append)
  have 1: "list_all (\<lambda>c. int (length (split c)) \<le> max_len) (chunk_text text max_len)"
    using assms length_split_join_groups [OF w, of "\<lambda>n. int n \<le> max_len"]
    by (simp add: chunk_text_groups chunk_groups_le)
  have 2: "list_all (\<lambda>c. int (length (split c)) = max_len) (butlast (chunk_text text max_len))"
    using assms length_split_join_groups [OF wb, of "\<lambda>n. int n = max_len"]
    by (simp add: chunk_text_groups chunk_groups_full map_butlast [symmetric])
  have 3: "concat (map split (chunk_text text max_len)) = split text"
    using split_join_groups [OF w] by (simp add: chunk_text_groups concat_chunk_groups)
  have 4: "chunk_text [] max_len = []"
    by (simp add: chunk_text_def split_def)
  from 1 2 3 4 show ?thesis by simp
qed

theorem chunk_text_chunks_witness:
  "(1::int) \<le> 2
   \<and> chunk_text ''a  bb c d e'' 2 = [''a bb'', ''c d'', ''e'']
   \<and> list_all (\<lambda>c. int (length (split c)) \<le> 2) (chunk_text ''a  bb c d e'' 2)
   \<and> list_all (\<lambda>c. int (length (split c)) = 2) (butlast (chunk_text ''a  bb c d e'' 2))
   \<and> concat (map split (chunk_text ''a  bb c d e'' 2)) = split ''a  bb c d e''"
  using chunk_text_chunks [of 2 "''a  bb c d e''"]
  by (simp add: chunk_text_def split_def isspace_def)


section \<open>The caption compositor\<close>

lemma draw_lines_size:
  "width (draw_lines fnt fs ls y img) = width img \<and> height (draw_lines fnt fs ls y img) = height img"
  by (induction ls arbitrary: y img) (auto simp: draw_text_def)

lemma caption_composite_ok:
  assumes "0 \<le> font_size + 20"
  shows "\<exists>new_img. caption_composite lib font_size pil_image caption = Inr new_img
     \<and> width new_img = width pil_image
     \<and> int (height new_img) = int (height pil_image) + (font_size + 20)
     \<and> (\<forall>x y. inside pil_image x y \<longrightarrow>
           inside new_img x (y + (font_size + 20))
           \<and> pixel new_img x (y + (font_size + 20)) = pixel pil_image x y)"
  using assms
  by (auto simp: caption_composite_def Image_new_def Let_def paste_def inside_def draw_lines_size)

text \<open>
  caption_composite_size. For every region image and every caption, with a caption band that is not of negative
  height (\<open>font_size + 20 \<ge> 0\<close>), the compositor returns an image as wide as the region and
  \<open>font_size + 20\<close> higher, and every pixel of the region is found unchanged \<open>font_size + 20\<close>
  rows further down in it. The block is the same in both extractors.
\<close>

theorem caption_composite_size:
  assumes "0 \<le> font_size + 20"
  shows "\<exists>new_img. caption_composite lib font_size pil_image caption = Inr new_img
     \<and> width new_img = width pil_image
     \<and> int (height new_img) = int (height pil_image) + (font_size + 20)
     \<and> (\<forall>x y. inside pil_image x y \<longrightarrow>
           inside new_img x (y + (font_size + 20))
           \<and> pixel new_img x (y + (font_size + 20)) = pixel pil_image x y)"
  using caption_composite_ok [OF assms, of lib pil_image caption] by auto

theorem caption_composite_size_witness:
  "(0::int) \<le> 24 + 20
   \<and> (\<exists>new_img. caption_composite example_lib 24 example_image ''Revenue by quarter'' = Inr new_img
        \<and> width new_img = 100 \<and> height new_img = 94
        \<and> pixel new_img 3 49 = (3, 5, 0))"
proof -
  have h: "(0::int) \<le> 24 + 20" by simp
  obtain new_img where c: "caption_composite example_lib 24 example_image ''Revenue by quarter'' = Inr new_img"
    and w: "width new_img = width example_image"
    and ht: "int (height new_img) = int (height example_image) + (24 + 20)"
    and px: "\<forall>x y. inside example_image x y \<longrightarrow>
           inside new_img x (y + (24 + 20))
           \<and> pixel new_img x (y + (24 + 20)) = pixel example_image x y"
    using caption_composite_size [OF h, of example_lib example_image "''Revenue by quarter''"] by blast
  have "inside example_image 3 5" by (simp add: inside_def example_image_def)
  then have "pixel new_img 3 (5 + (24 + 20)) = pixel example_image 3 5" using px by blast
  then have "pixel new_img 3 49 = (3, 5, 0)" by (simp add: example_image_def)
  moreover have "width new_img = 100" using w by (simp add: example_image_def)
  moreover have "height new_img = 94" using ht by (simp add: example_image_def)
  ultimately show ?thesis using c h by blast
qed

section \<open>Graph extraction: indices and the metadata file\<close>

lemma caption_composite_width:
  "caption_composite lib font_size pil_image caption = Inr new_img \<Longrightarrow>
   width new_img = width pil_image"
  by (auto simp: caption_composite_def Image_new_def Let_def paste_def draw_lines_size
      split: if_splits)

lemma picture_step_raise:
  "get_pil_image item = Inl e \<Longrightarrow>
   picture_step lib od font_size s item =
     Inr (s\<lparr>st_pic_index := st_pic_index s + 1,
            st_stdout := st_stdout s @
              [''Warning: Could not get image for graph '' @ str_nat (st_pic_index s + 1)
                 @ '': '' @ str_error e]\<rparr>)"
  unfolding picture_step_def Let_def by (simp only: sum.case)

lemma picture_step_none:
  "get_pil_image item = Inr None \<Longrightarrow>
   picture_step lib od font_size s item =
     Inr (s\<lparr>st_pic_index := st_pic_index s + 1,
            st_stdout := st_stdout s @
              [''Warning: No image found for graph '' @ str_nat (st_pic_index s + 1)]\<rparr>)"
  unfolding picture_step_def Let_def by (simp only: sum.case option.case)

lemma picture_step_composite_raises:
  assumes "get_pil_image item = Inr (Some img)"
    and "caption_composite lib font_size img (graph_caption item (st_pic_index s + 1)) = Inl e"
  shows "picture_step lib od font_size s item = Inl e"
  unfolding picture_step_def Let_def by (simp only: assms sum.case option.case)

lemma picture_step_composed:
  assumes "get_pil_image item = Inr (Some img)"
    and "caption_composite lib font_size img (graph_caption item (st_pic_index s + 1)) = Inr new_img"
  shows "\<exists>info path msg. picture_step lib od font_size s item =
     (case image_save lib new_img path of
        Some e \<Rightarrow> Inl e
      | None \<Rightarrow>
          Inr (s\<lparr>st_pic_index := st_pic_index s + 1,
                 st_extracted := st_extracted s @ [info],
                 st_png_files := st_png_files s @ [(path, new_img)],
                 st_stdout := st_stdout s @ [msg]\<rparr>))
     \<and> gi_index info = st_pic_index s + 1"
  unfolding picture_step_def Let_def
  apply (simp only: assms sum.case option.case)
  apply (intro exI conjI)
   apply (rule refl)
  apply (simp only: graph_info.select_convs)
  done

lemma picture_step_result:
  assumes "picture_step lib od font_size s item = Inr s1"
  shows "st_pic_index s1 = st_pic_index s + 1
     \<and> map gi_index (st_extracted s1) =
         map gi_index (st_extracted s) @ (if has_image item then [st_pic_index s + 1] else [])"
proof (cases "get_pil_image item")
  case (Inl e)
  then show ?thesis using assms picture_step_raise [OF Inl, of lib od font_size s]
    by (auto simp: has_image_def)
next
  case (Inr r)
  show ?thesis
  proof (cases r)
    case None
    then show ?thesis using assms Inr picture_step_none [of item lib od font_size s]
      by (auto simp: has_image_def)
  next
    case (Some img)
    have g: "get_pil_image item = Inr (Some img)" using Inr Some by simp
    show ?thesis
    proof (cases "caption_composite lib font_size img (graph_caption item (st_pic_index s + 1))")
      case (Inl e)
      then show ?thesis using assms picture_step_composite_raises [OF g Inl, of od] by simp
    next
      case new: (Inr new_img)
      obtain info path msg where st: "picture_step lib od font_size s item =
         (case image_save lib new_img path of
            Some e \<Rightarrow> Inl e
          | None \<Rightarrow>
              Inr (s\<lparr>st_pic_index := st_pic_index s + 1,
                     st_extracted := st_extracted s @ [info],
                     st_png_files := st_png_files s @ [(path, new_img)],
                     st_stdout := st_stdout s @ [msg]\<rparr>))"
        and ix: "gi_index info = st_pic_index s + 1"
        using picture_step_composed [OF g new, of od] by blast
      show ?thesis
      proof (cases "image_save lib new_img path")
        case None
        then show ?thesis using assms st ix g by (auto simp: has_image_def)
      next
        case (Some e)
        then show ?thesis using assms st by simp
      qed
    qed
  qed
qed

lemma picture_step_empty:
  assumes g: "get_pil_image item = Inr (Some img)" and w: "width img = 0"
  shows "\<exists>e. picture_step lib od font_size s item = Inl e"
proof (cases "caption_composite lib font_size img (graph_caption item (st_pic_index s + 1))")
  case (Inl e)
  then show ?thesis using picture_step_composite_raises [OF g Inl, of od] by blast
next
  case new: (Inr new_img)
  obtain info path msg where st: "picture_step lib od font_size s item =
     (case image_save lib new_img path of
        Some e \<Rightarrow> Inl e
      | None \<Rightarrow>
          Inr (s\<lparr>st_pic_index := st_pic_index s + 1,
                 st_extracted := st_extracted s @ [info],
                 st_png_files := st_png_files s @ [(path, new_img)],
                 st_stdout := st_stdout s @ [msg]\<rparr>))"
    using picture_step_composed [OF g new, of od] by blast
  have "width new_img = 0" using caption_composite_width [OF new] w by simp
  then have "image_save lib new_img path = Some (Error ''cannot write empty image'')"
    by (simp add: image_save_def)
  then show ?thesis using st by simp
qed

lemma picture_step_ok:
  assumes fs: "0 < font_size + 20"
    and ne: "nonempty_picture item"
    and wr: "\<forall>path. write_file lib path = None"
  shows "\<exists>s1. picture_step lib od font_size s item = Inr s1"
proof (cases "get_pil_image item")
  case (Inl e)
  then show ?thesis using picture_step_raise [OF Inl] by blast
next
  case (Inr r)
  show ?thesis
  proof (cases r)
    case None
    then show ?thesis using Inr picture_step_none [of item] by blast
  next
    case (Some img)
    have g: "get_pil_image item = Inr (Some img)" using Inr Some by simp
    have w: "0 < width img" using ne g by (simp add: nonempty_picture_def)
    have fs': "0 \<le> font_size + 20" using fs by simp
    obtain new_img where new:
      "caption_composite lib font_size img (graph_caption item (st_pic_index s + 1)) = Inr new_img"
      and nw: "width new_img = width img"
      and nh: "int (height new_img) = int (height img) + (font_size + 20)"
      using caption_composite_ok [OF fs', of lib img] by blast
    obtain info path msg where st: "picture_step lib od font_size s item =
       (case image_save lib new_img path of
          Some e \<Rightarrow> Inl e
        | None \<Rightarrow>
            Inr (s\<lparr>st_pic_index := st_pic_index s + 1,
                   st_extracted := st_extracted s @ [info],
                   st_png_files := st_png_files s @ [(path, new_img)],
                   st_stdout := st_stdout s @ [msg]\<rparr>))"
      using picture_step_composed [OF g new, of od] by blast
    have "0 < height new_img" using nh fs by linarith
    then have "image_save lib new_img path = None"
      using w nw wr by (simp add: image_save_def)
    then show ?thesis using st by simp
  qed
qed

lemma items_loop_result:
  "items_loop lib od font_size items s = Inr s' \<Longrightarrow>
   st_pic_index s' = st_pic_index s + length (filter is_picture items)
   \<and> map gi_index (st_extracted s') =
       map gi_index (st_extracted s) @ reported_indices (st_pic_index s) items"
proof (induction items arbitrary: s)
  case Nil
  then show ?case by simp
next
  case (Cons item items)
  show ?case
  proof (cases "is_picture item")
    case False
    then show ?thesis using Cons.IH [of s] Cons.prems by (simp add: is_picture_def)
  next
    case True
    show ?thesis
    proof (cases "picture_step lib od font_size s item")
      case (Inl e)
      then show ?thesis using Cons.prems True by (simp add: is_picture_def)
    next
      case (Inr s1)
      have rest: "items_loop lib od font_size items s1 = Inr s'"
        using Cons.prems True Inr by (simp add: is_picture_def)
      show ?thesis
        using Cons.IH [OF rest] picture_step_result [OF Inr] True by simp
    qed
  qed
qed

lemma items_loop_ok:
  assumes fs: "0 < font_size + 20"
    and wr: "\<forall>path. write_file lib path = None"
  shows "list_all nonempty_picture items \<Longrightarrow> \<exists>s'. items_loop lib od font_size items s = Inr s'"
proof (induction items arbitrary: s)
  case Nil
  then show ?case by simp
next
  case (Cons item items)
  have ne: "nonempty_picture item" and rest: "list_all nonempty_picture items"
    using Cons.prems by simp_all
  show ?case
  proof (cases "label item = Some ''picture''")
    case False
    then show ?thesis using Cons.IH [OF rest, of s] by simp
  next
    case True
    obtain s1 where s1: "picture_step lib od font_size s item = Inr s1"
      using picture_step_ok [OF fs ne wr] by blast
    then show ?thesis using Cons.IH [OF rest, of s1] True by simp
  qed
qed

lemma items_loop_append:
  "items_loop lib od fs (xs @ ys) s =
     (case items_loop lib od fs xs s of Inl e \<Rightarrow> Inl e | Inr s' \<Rightarrow> items_loop lib od fs ys s')"
  by (induction xs arbitrary: s) (auto split: sum.splits)

lemma reported_indices_bounds:
  "i \<in> set (reported_indices n items) \<Longrightarrow> n < i"
  by (induction items arbitrary: n) (fastforce split: if_splits)+

lemma reported_indices_sorted: "sorted_wrt (<) (reported_indices n items)"
  by (induction items arbitrary: n) (auto simp: sorted_wrt_append dest: reported_indices_bounds)

lemma reported_indices_mem:
  "i \<in> set (reported_indices n items) \<longleftrightarrow>
     n < i \<and> i \<le> n + length (filter is_picture items)
     \<and> has_image (filter is_picture items ! (i - n - 1))"
proof (induction items arbitrary: n)
  case Nil
  then show ?case by simp
next
  case (Cons item items)
  show ?case
  proof (cases "is_picture item")
    case False
    then show ?thesis using Cons [of n] by simp
  next
    case True
    show ?thesis
    proof (cases "i = n + 1")
      case eq: True
      have "i \<notin> set (reported_indices (n + 1) items)"
        using reported_indices_bounds [of i "n + 1" items] eq by auto
      then show ?thesis using True eq by simp
    next
      case neq: False
      have "i - n - 1 = Suc (i - (n + 1) - 1)" if "n + 1 < i" using that by simp
      then show ?thesis using True neq Cons [of "n + 1"] by (auto simp: nth_Cons')
    qed
  qed
qed

lemma extract_result:
  assumes "extract_graphs_to_single_file lib items output_dir font_size = Inr res"
  shows "\<exists>s. items_loop lib output_dir font_size items
             \<lparr>st_pic_index = 0, st_extracted = [], st_png_files = [], st_stdout = []\<rparr> = Inr s
     \<and> res_extracted res = st_extracted s
     \<and> (res_json_file res \<noteq> None \<longleftrightarrow> st_extracted s \<noteq> [])"
proof (cases "items_loop lib output_dir font_size items
             \<lparr>st_pic_index = 0, st_extracted = [], st_png_files = [], st_stdout = []\<rparr>")
  case (Inl e)
  then show ?thesis using assms by (simp add: extract_graphs_to_single_file_def)
next
  case (Inr s)
  show ?thesis
  proof (cases "st_extracted s = []")
    case True
    then show ?thesis using assms Inr
      by (auto simp: extract_graphs_to_single_file_def)
  next
    case False
    then show ?thesis using assms Inr
      by (auto simp: extract_graphs_to_single_file_def Let_def split: option.splits)
  qed
qed

lemma extract_returns:
  assumes "items_loop lib output_dir font_size items
             \<lparr>st_pic_index = 0, st_extracted = [], st_png_files = [], st_stdout = []\<rparr> = Inr s"
    and "\<forall>path. write_file lib path = None"
  shows "\<exists>res. extract_graphs_to_single_file lib items output_dir font_size = Inr res"
proof (cases "st_extracted s = []")
  case True
  then show ?thesis unfolding extract_graphs_to_single_file_def assms(1) Let_def by simp
next
  case False
  then show ?thesis unfolding extract_graphs_to_single_file_def assms(1) Let_def
    by (simp add: assms(2))
qed

lemma picture_step_empty_error:
  assumes g: "get_pil_image item = Inr (Some img)" and w: "width img = 0"
    and fs: "0 \<le> font_size + 20"
  shows "picture_step lib od font_size s item = Inl (Error ''cannot write empty image'')"
proof -
  obtain new_img where new:
    "caption_composite lib font_size img (graph_caption item (st_pic_index s + 1)) = Inr new_img"
    and nw: "width new_img = width img"
    using caption_composite_ok [OF fs, of lib img] by blast
  obtain info path msg where st: "picture_step lib od font_size s item =
     (case image_save lib new_img path of
        Some e \<Rightarrow> Inl e
      | None \<Rightarrow>
          Inr (s\<lparr>st_pic_index := st_pic_index s + 1,
                 st_extracted := st_extracted s @ [info],
                 st_png_files := st_png_files s @ [(path, new_img)],
                 st_stdout := st_stdout s @ [msg]\<rparr>))"
    using picture_step_composed [OF g new, of od] by blast
  have "image_save lib new_img path = Some (Error ''cannot write empty image'')"
    using nw w by (simp add: image_save_def)
  then show ?thesis using st by simp
qed

lemma extract_indices:
  assumes ret: "extract_graphs_to_single_file lib items output_dir font_size = Inr res"
  shows "sorted_wrt (<) (map gi_index (res_extracted res))"
    and "i \<in> set (map gi_index (res_extracted res)) \<longleftrightarrow>
            1 \<le> i \<and> i \<le> length (filter is_picture items)
            \<and> has_image (filter is_picture items ! (i - 1))"
    and "res_json_file res \<noteq> None \<longleftrightarrow> res_extracted res \<noteq> []"
proof -
  let ?s0 = "\<lparr>st_pic_index = 0, st_extracted = [], st_png_files = [], st_stdout = []\<rparr>"
  obtain s where s: "items_loop lib output_dir font_size items ?s0 = Inr s"
    and ex: "res_extracted res = st_extracted s"
    and js: "res_json_file res \<noteq> None \<longleftrightarrow> st_extracted s \<noteq> []"
    using extract_result [OF ret] by (elim exE conjE)
  have idx: "map gi_index (st_extracted s) = reported_indices 0 items"
    using items_loop_result [OF s] by simp
  show "sorted_wrt (<) (map gi_index (res_extracted res))"
    by (simp only: ex idx reported_indices_sorted)
  show "i \<in> set (map gi_index (res_extracted res)) \<longleftrightarrow>
            1 \<le> i \<and> i \<le> length (filter is_picture items)
            \<and> has_image (filter is_picture items ! (i - 1))"
    unfolding ex idx using reported_indices_mem [of i 0 items] by auto
  show "res_json_file res \<noteq> None \<longleftrightarrow> res_extracted res \<noteq> []"
    unfolding ex by (rule js)
qed

lemma extract_returns_ok:
  assumes fs: "0 < font_size + 20" and ne: "list_all nonempty_picture items"
    and wr: "\<forall>path. write_file lib path = None"
  shows "\<exists>r. extract_graphs_to_single_file lib items output_dir font_size = Inr r"
proof -
  let ?s0 = "\<lparr>st_pic_index = 0, st_extracted = [], st_png_files = [], st_stdout = []\<rparr>"
  obtain s where s: "items_loop lib output_dir font_size items ?s0 = Inr s"
    using items_loop_ok [OF fs wr ne, of output_dir ?s0] by (elim exE)
  show ?thesis
    by (rule extract_returns [OF s wr])
qed

text \<open>
  C10. In the list the function returns, the index fields are strictly increasing. The
  counter counts every picture item, also one that is skipped because its image is not
  retrieved: index \<open>i\<close> is reported exactly when the \<open>i\<close>-th picture item has a retrievable
  image, so a skipped picture leaves a gap. The metadata file is written exactly when a
  record was extracted. The function does return when the caption band has a positive
  height, no retrieved image is without width and every file can be written.
\<close>

theorem extract_indices_increasing:
  "(extract_graphs_to_single_file lib items output_dir font_size = Inr res \<longrightarrow>
       sorted_wrt (<) (map gi_index (res_extracted res))
     \<and> (\<forall>i. i \<in> set (map gi_index (res_extracted res)) \<longleftrightarrow>
            1 \<le> i \<and> i \<le> length (filter is_picture items)
            \<and> has_image (filter is_picture items ! (i - 1)))
     \<and> (res_json_file res \<noteq> None \<longleftrightarrow> res_extracted res \<noteq> []))
   \<and> (0 < font_size + 20 \<and> list_all nonempty_picture items
        \<and> (\<forall>path. write_file lib path = None) \<longrightarrow>
       (\<exists>r. extract_graphs_to_single_file lib items output_dir font_size = Inr r))"
proof -
  have a: "sorted_wrt (<) (map gi_index (res_extracted res))
     \<and> (\<forall>i. i \<in> set (map gi_index (res_extracted res)) \<longleftrightarrow>
            1 \<le> i \<and> i \<le> length (filter is_picture items)
            \<and> has_image (filter is_picture items ! (i - 1)))
     \<and> (res_json_file res \<noteq> None \<longleftrightarrow> res_extracted res \<noteq> [])"
    if ret: "extract_graphs_to_single_file lib items output_dir font_size = Inr res"
    apply (rule conjI)
     apply (rule extract_indices(1) [OF ret])
    apply (rule conjI)
     apply (rule allI)
     apply (rule extract_indices(2) [OF ret])
    apply (rule extract_indices(3) [OF ret])
    done
  have b: "\<exists>r. extract_graphs_to_single_file lib items output_dir font_size = Inr r"
    if h: "0 < font_size + 20 \<and> list_all nonempty_picture items
        \<and> (\<forall>path. write_file lib path = None)"
    apply (rule extract_returns_ok)
      apply (rule conjunct1 [OF h])
     apply (rule conjunct1 [OF conjunct2 [OF h]])
    apply (rule conjunct2 [OF conjunct2 [OF h]])
    done
  show ?thesis
    apply (rule conjI)
     apply (rule impI)
     apply (erule a)
    apply (rule impI)
    apply (erule b)
    done
qed

theorem extract_indices_increasing_witness:
  "\<exists>res. extract_graphs_to_single_file example_lib
             [picture_ok, paragraph_item, picture_broken, picture_ok] ''graphs_only'' 24 = Inr res
      \<and> sorted_wrt (<) (map gi_index (res_extracted res))
      \<and> 1 \<in> set (map gi_index (res_extracted res))
      \<and> 2 \<notin> set (map gi_index (res_extracted res))
      \<and> 3 \<in> set (map gi_index (res_extracted res))
      \<and> res_json_file res \<noteq> None"
proof -
  let ?items = "[picture_ok, paragraph_item, picture_broken, picture_ok]"
  have h: "(0::int) < 24 + 20 \<and> list_all nonempty_picture ?items
      \<and> (\<forall>path. write_file example_lib path = None)"
    by (simp add: nonempty_picture_def get_pil_image_def picture_ok_def paragraph_item_def
        picture_broken_def example_image_def example_lib_def)
  obtain res where r: "extract_graphs_to_single_file example_lib ?items ''graphs_only'' 24 = Inr res"
    using extract_indices_increasing [of example_lib ?items "''graphs_only''" 24] h by blast
  have srt: "sorted_wrt (<) (map gi_index (res_extracted res))"
    and mem: "\<forall>i. i \<in> set (map gi_index (res_extracted res)) \<longleftrightarrow>
            1 \<le> i \<and> i \<le> length (filter is_picture ?items)
            \<and> has_image (filter is_picture ?items ! (i - 1))"
    and js: "res_json_file res \<noteq> None \<longleftrightarrow> res_extracted res \<noteq> []"
    using extract_indices_increasing [of example_lib ?items "''graphs_only''" 24 res] r by blast+
  have pics: "filter is_picture ?items = [picture_ok, picture_broken, picture_ok]"
    by (simp add: is_picture_def picture_ok_def paragraph_item_def picture_broken_def)
  have ok: "has_image picture_ok" "\<not> has_image picture_broken"
    by (simp_all add: has_image_def get_pil_image_def picture_ok_def picture_broken_def)
  have mem': "i \<in> set (map gi_index (res_extracted res)) \<longleftrightarrow>
            1 \<le> i \<and> i \<le> length [picture_ok, picture_broken, picture_ok]
            \<and> has_image ([picture_ok, picture_broken, picture_ok] ! (i - 1))" for i
    using mem unfolding pics by blast
  have 1: "1 \<in> set (map gi_index (res_extracted res))"
    unfolding mem' [of 1] by (simp add: ok)
  have 2: "2 \<notin> set (map gi_index (res_extracted res))"
    unfolding mem' [of 2] by (simp add: ok)
  have 3: "3 \<in> set (map gi_index (res_extracted res))"
    unfolding mem' [of 3] by (simp add: ok)
  have 4: "res_json_file res \<noteq> None" using js 1 by auto
  show ?thesis using r srt 1 2 3 4 by blast
qed


section \<open>The vector store scripts\<close>

lemma ensure_collection_raises:
  "ensure_collection client =
     (collections_delete client ''PDFContent'',
      Inl (Error ''TypeError: hnsw() got an unexpected keyword argument vector_size''))"
proof (cases "client ''PDFContent''")
  case None
  then have "client(''PDFContent'' := None) = client" by (simp add: fun_upd_idem)
  then show ?thesis using None
    by (simp add: ensure_collection_def ensure_try_def config_get_def hnsw_with_vector_size_def
        collections_delete_def)
next
  case (Some col)
  then show ?thesis
    by (simp add: ensure_collection_def ensure_try_def config_get_def hnsw_with_vector_size_def
        collections_delete_def config_vector_size_def)
qed

lemma process_pdf_raises:
  "process_pdf embed_text embed_image client extracted n_pages =
     \<lparr>pp_client = collections_delete client ''PDFContent'', pp_chunks = [], pp_images = [],
      pp_raised = Some (Error ''TypeError: hnsw() got an unexpected keyword argument vector_size'')\<rparr>"
  by (simp add: process_pdf_def ensure_collection_raises)

text \<open>
  C4. What \<open>ensure_collection\<close> does on every client: reading the vector size raises, so
  \<open>existing_dim\<close> is \<open>None\<close> and an existing collection is always taken for a mismatch and
  deleted, with everything stored in it; building the arguments of the create call then
  raises \<open>TypeError\<close>, so no collection is created and the function raises. No existing
  collection is ever returned. On a server that holds the collection with one object, the
  function leaves a server without the collection.
\<close>

theorem ensure_collection_deletes_and_raises:
  "ensure_collection client =
     (collections_delete client ''PDFContent'',
      Inl (Error ''TypeError: hnsw() got an unexpected keyword argument vector_size''))
   \<and> stored (fst (ensure_collection client)) ''PDFContent'' oid = None
   \<and> stored (no_collections(''PDFContent'' \<mapsto> existing_collection)) ''PDFContent'' (Assigned 0)
       \<noteq> None
   \<and> ensure_collection (no_collections(''PDFContent'' \<mapsto> existing_collection)) =
       (no_collections,
        Inl (Error ''TypeError: hnsw() got an unexpected keyword argument vector_size''))"
  by (simp add: ensure_collection_raises stored_def collections_delete_def no_collections_def
      existing_collection_def)


























lemma batch_loop_append:
  "batch_loop enc gen (xs @ ys) r = batch_loop enc gen ys (batch_loop enc gen xs r)"
  by (induction xs arbitrary: r) auto

lemma batch_loop_backup:
  "map be_path (run_backup (batch_loop enc gen ps r)) =
     map be_path (run_backup r) @ filter (encodes enc) ps"
  by (induction ps arbitrary: r) (auto simp: encodes_def split: sum.splits)

lemma batch_loop_failure:
  assumes "enc p = Inl e"
  shows "batch_loop enc gen (pre @ p # post) r =
     batch_loop enc gen post
       ((batch_loop enc gen pre r)\<lparr>run_stdout := run_stdout (batch_loop enc gen pre r) @
            [''Failed '' @ p @ '': '' @ str_error e]\<rparr>)"
  by (simp add: batch_loop_append assms)

lemma items_loop_failure:
  assumes pic: "label item = Some ''picture''"
    and exn: "get_pil_image item = Inl e"
    and s1: "items_loop lib od font_size before s = Inr s1"
  shows "items_loop lib od font_size (before @ item # after) s =
         items_loop lib od font_size after
           (s1\<lparr>st_pic_index := st_pic_index s1 + 1,
               st_stdout := st_stdout s1 @
                 [''Warning: Could not get image for graph '' @ str_nat (st_pic_index s1 + 1)
                    @ '': '' @ str_error e]\<rparr>)"
  by (simp add: items_loop_append s1 pic picture_step_raise [OF exn])

lemma items_loop_abort:
  assumes pic: "label item = Some ''picture''"
    and g: "get_pil_image item = Inr (Some img)" and w: "width img = 0"
    and s1: "items_loop lib od font_size before s = Inr s1"
  shows "\<exists>e. items_loop lib od font_size (before @ item # after) s = Inl e"
proof -
  obtain e where "picture_step lib od font_size s1 item = Inl e"
    using picture_step_empty [OF g w] by blast
  then have "items_loop lib od font_size (before @ item # after) s = Inl e"
    by (simp add: items_loop_append s1 pic)
  then show ?thesis by blast
qed

text \<open>
  C5, as it holds. In the indexing batch loop an exception raised while one image is
  handled is caught: the path adds only the line \<open>Failed <path>: <error>\<close> to what the
  items before it gave, and the loop goes on with the items after it; the backup holds
  every path that encodes, in order. In the graph extraction loop an exception raised
  while the image of a picture is retrieved is caught: the counter advances, a warning
  line is added, and the loop goes on with the items after it. An exception raised later
  in that loop body is not caught: a picture whose image has no width makes the save
  raise, and the loop ends there with the exception, whatever items follow.
\<close>

theorem item_failure_skipped:
  "(enc p = Inl e \<longrightarrow>
      batch_loop enc gen (pre @ p # post) r =
        batch_loop enc gen post
          ((batch_loop enc gen pre r)\<lparr>run_stdout := run_stdout (batch_loop enc gen pre r) @
               [''Failed '' @ p @ '': '' @ str_error e]\<rparr>))
   \<and> map be_path (run_backup (batch_loop enc gen ps r)) =
       map be_path (run_backup r) @ filter (encodes enc) ps
   \<and> (label item = Some ''picture'' \<and> get_pil_image item = Inl e'
        \<and> items_loop lib od font_size before s = Inr s1 \<longrightarrow>
       items_loop lib od font_size (before @ item # after) s =
         items_loop lib od font_size after
           (s1\<lparr>st_pic_index := st_pic_index s1 + 1,
               st_stdout := st_stdout s1 @
                 [''Warning: Could not get image for graph ''
                    @ str_nat (st_pic_index s1 + 1) @ '': '' @ str_error e']\<rparr>))
   \<and> (label blank = Some ''picture'' \<and> get_pil_image blank = Inr (Some img) \<and> width img = 0
        \<and> items_loop lib od font_size before s = Inr s1 \<longrightarrow>
       (\<exists>e''. items_loop lib od font_size (before @ blank # after) s = Inl e''))"
  apply (intro conjI impI)
     apply (erule batch_loop_failure)
    apply (rule batch_loop_backup)
   apply (elim conjE)
   apply (erule (2) items_loop_failure)
  apply (elim conjE)
  apply (erule (3) items_loop_abort)
  done

theorem item_failure_skipped_witness:
  "run_stdout (batch_loop example_encode example_uuid5
       [''graphs_only/a.png'', ''graphs_only/bad.png'', ''graphs_only/b.png''] empty_run) =
     [''Failed graphs_only/bad.png: cannot identify image file'']
   \<and> map be_path (run_backup (batch_loop example_encode example_uuid5
       [''graphs_only/a.png'', ''graphs_only/bad.png'', ''graphs_only/b.png''] empty_run)) =
     [''graphs_only/a.png'', ''graphs_only/b.png'']
   \<and> items_loop example_lib ''graphs_only'' 24 [picture_broken, paragraph_item] initial_state =
       Inr (initial_state\<lparr>st_pic_index := 1,
              st_stdout := [''Warning: Could not get image for graph 1: cannot decode'']\<rparr>)
   \<and> (\<exists>e. items_loop example_lib ''graphs_only'' 24 [picture_empty, paragraph_item]
              initial_state = Inl e)"
proof -
  have bad: "example_encode ''graphs_only/bad.png'' = Inl (Error ''cannot identify image file'')"
    by (simp add: example_encode_def)
  have hb: "label picture_broken = Some ''picture''
      \<and> get_pil_image picture_broken = Inl (Error ''cannot decode'')
      \<and> items_loop example_lib ''graphs_only'' 24 [] initial_state = Inr initial_state"
    by (simp add: get_pil_image_def picture_broken_def)
  have he: "label picture_empty = Some ''picture''
      \<and> get_pil_image picture_empty = Inr (Some empty_image) \<and> width empty_image = 0
      \<and> items_loop example_lib ''graphs_only'' 24 [] initial_state = Inr initial_state"
    by (simp add: get_pil_image_def picture_empty_def empty_image_def)
  note t = item_failure_skipped [of example_encode "''graphs_only/bad.png''" "Error ''cannot identify image file''"
      example_uuid5 "[''graphs_only/a.png'']" "[''graphs_only/b.png'']" empty_run
      "[''graphs_only/a.png'', ''graphs_only/bad.png'', ''graphs_only/b.png'']"
      picture_broken "Error ''cannot decode''" example_lib "''graphs_only''" 24 "[]"
      initial_state initial_state "[paragraph_item]" picture_empty empty_image]
  have a: "batch_loop example_encode example_uuid5
       ([''graphs_only/a.png''] @ ''graphs_only/bad.png'' # [''graphs_only/b.png'']) empty_run =
        batch_loop example_encode example_uuid5 [''graphs_only/b.png'']
          ((batch_loop example_encode example_uuid5 [''graphs_only/a.png''] empty_run)
            \<lparr>run_stdout := run_stdout (batch_loop example_encode example_uuid5
                 [''graphs_only/a.png''] empty_run) @
               [''Failed '' @ ''graphs_only/bad.png'' @ '': ''
                  @ str_error (Error ''cannot identify image file'')]\<rparr>)"
    using t bad by blast
  have b: "map be_path (run_backup (batch_loop example_encode example_uuid5
       [''graphs_only/a.png'', ''graphs_only/bad.png'', ''graphs_only/b.png''] empty_run)) =
       map be_path (run_backup empty_run) @ filter (encodes example_encode)
         [''graphs_only/a.png'', ''graphs_only/bad.png'', ''graphs_only/b.png'']"
    using t by blast
  have c: "items_loop example_lib ''graphs_only'' 24 ([] @ picture_broken # [paragraph_item])
        initial_state =
       items_loop example_lib ''graphs_only'' 24 [paragraph_item]
         (initial_state\<lparr>st_pic_index := st_pic_index initial_state + 1,
             st_stdout := st_stdout initial_state @
               [''Warning: Could not get image for graph ''
                  @ str_nat (st_pic_index initial_state + 1) @ '': ''
                  @ str_error (Error ''cannot decode'')]\<rparr>)"
    using t hb by blast
  have d: "\<exists>e. items_loop example_lib ''graphs_only'' 24 ([] @ picture_empty # [paragraph_item])
        initial_state = Inl e"
    using t he by blast
  have 1: "run_stdout (batch_loop example_encode example_uuid5
       [''graphs_only/a.png'', ''graphs_only/bad.png'', ''graphs_only/b.png''] empty_run) =
     [''Failed graphs_only/bad.png: cannot identify image file'']"
    using a by (simp add: example_encode_def empty_run_def)
  have 2: "map be_path (run_backup (batch_loop example_encode example_uuid5
       [''graphs_only/a.png'', ''graphs_only/bad.png'', ''graphs_only/b.png''] empty_run)) =
     [''graphs_only/a.png'', ''graphs_only/b.png'']"
    using b by (simp add: example_encode_def empty_run_def encodes_def)
  have 3: "items_loop example_lib ''graphs_only'' 24 [picture_broken, paragraph_item] initial_state =
       Inr (initial_state\<lparr>st_pic_index := 1,
              st_stdout := [''Warning: Could not get image for graph 1: cannot decode'']\<rparr>)"
    using c by (simp add: initial_state_def paragraph_item_def str_nat.simps digit_char_def)
  from 1 2 3 d show ?thesis by simp
qed

text \<open>
  Against C5 as stated: a picture without width followed by a good picture. The save of
  the first raises, the function raises with it, and the second picture is not processed.
\<close>

theorem empty_picture_aborts_extraction:
  "extract_graphs_to_single_file example_lib [picture_empty, picture_ok] ''graphs_only'' 24 =
     Inl (Error ''cannot write empty image'')"
proof -
  have g: "get_pil_image picture_empty = Inr (Some empty_image)"
    by (simp add: get_pil_image_def picture_empty_def)
  have w: "width empty_image = 0" by (simp add: empty_image_def)
  have fs: "(0::int) \<le> 24 + 20" by simp
  have l: "label picture_empty = Some ''picture''" by (simp add: picture_empty_def)
  show ?thesis
    by (simp add: extract_graphs_to_single_file_def l picture_step_empty_error [OF g w fs])
qed

end
